theory Spec2Isabelle
  imports Complex_Main "HOL-Library.Sublist" "HOL-Library.Char_ord" "HOL-Library.List_Lexorder"
begin

section \<open>Tables\<close>

text \<open>
  A value held by one field of a table read from a CSV file: a missing field (NaN),
  a number, a text, or a truth value. Numbers are reals: the 64-bit integer and the
  floating-point columns are not told apart, so \<open>1\<close> and \<open>1.0\<close> are the same value, as
  they are for every comparison the dashboard makes.
\<close>

datatype cell = NaN | Num real | Text string | Bool bool

text \<open>
  A row gives each column name its value; a frame is the column index and the rows.
  The program reads a column only after it has checked that the frame has it (the
  required columns in \<open>load_data\<close>, \<open>is_fraud\<close> behind a membership test), so a read never
  misses; \<open>cell_of\<close> answers NaN for a name the row does not hold.
\<close>

type_synonym row = "(string \<times> cell) list"

record frame =
  columns :: "string list"
  rows :: "row list"

definition cell_of :: "row \<Rightarrow> string \<Rightarrow> cell" where
  "cell_of r c = (case map_of r c of Some v \<Rightarrow> v | None \<Rightarrow> NaN)"

fun put_cell :: "string \<Rightarrow> cell \<Rightarrow> row \<Rightarrow> row" where
  "put_cell c v [] = [(c, v)]"
| "put_cell c v ((k, w) # r) = (if k = c then (k, v) # r else (k, w) # put_cell c v r)"

text \<open>\<open>df[c]\<close>: the column as a series.\<close>

definition col :: "frame \<Rightarrow> string \<Rightarrow> cell list" where
  "col df c = map (\<lambda>r. cell_of r c) (rows df)"

text \<open>\<open>df[c] = s\<close>: the series replaces the column, row by row.\<close>

definition set_col :: "frame \<Rightarrow> string \<Rightarrow> cell list \<Rightarrow> frame" where
  "set_col df c s =
     df\<lparr>columns := (if c \<in> set (columns df) then columns df else columns df @ [c]),
        rows := map (\<lambda>(r, v). put_cell c v r) (zip (rows df) s)\<rparr>"

fun isnull :: "cell \<Rightarrow> bool" where
  "isnull NaN = True"
| "isnull _ = False"

text \<open>\<open>df.empty\<close>: no rows or no columns.\<close>

definition df_empty :: "frame \<Rightarrow> bool" where
  "df_empty df = (rows df = [] \<or> columns df = [])"

section \<open>Data loading\<close>

datatype py_error = TypeError

text \<open>
  \<open>pd.to_numeric(errors='coerce')\<close> on one value. How a text is read as a number is the
  library's business and is a parameter \<open>p\<close>; a text it cannot read becomes NaN. A truth
  value counts as 1 or 0, as it does in every comparison with a number.
\<close>

fun to_numeric :: "(string \<Rightarrow> real option) \<Rightarrow> cell \<Rightarrow> cell" where
  "to_numeric p NaN = NaN"
| "to_numeric p (Num x) = Num x"
| "to_numeric p (Text s) = (case p s of Some x \<Rightarrow> Num x | None \<Rightarrow> NaN)"
| "to_numeric p (Bool b) = Num (if b then 1 else 0)"

text \<open>
  \<open>.astype('Int64')\<close>: the nullable integer type keeps NaN as its null and takes a number
  only when the 64-bit signed integer it is cast to equals it: the number is whole and
  lies between \<open>-2^63\<close> and \<open>2^63 - 1\<close>. A number with a fractional part, or a whole number
  outside that range, makes the cast raise TypeError for the whole column.
\<close>

fun fits_Int64 :: "cell \<Rightarrow> bool" where
  "fits_Int64 (Num x) = (of_int \<lfloor>x\<rfloor> = x \<and> - (2 ^ 63) \<le> x \<and> x < 2 ^ 63)"
| "fits_Int64 _ = True"

definition astype_Int64 :: "cell list \<Rightarrow> py_error + cell list" where
  "astype_Int64 s = (if list_all fits_Int64 s then Inr s else Inl TypeError)"

text \<open>\<open>df.dropna(subset=cs)\<close>: keep the rows with no null in the columns \<open>cs\<close>.\<close>

definition dropna :: "frame \<Rightarrow> string list \<Rightarrow> frame" where
  "dropna df cs = df\<lparr>rows := filter (\<lambda>r. list_all (\<lambda>c. \<not> isnull (cell_of r c)) cs) (rows df)\<rparr>"

text \<open>
  \<open>.astype(bool)\<close>: Python truthiness of each value. NaN is a non-zero float, so it is true.
\<close>

fun truthy :: "cell \<Rightarrow> bool" where
  "truthy NaN = True"
| "truthy (Num x) = (x \<noteq> 0)"
| "truthy (Text s) = (s \<noteq> [])"
| "truthy (Bool b) = b"

text \<open>What \<open>pd.read_csv\<close> did with the path: the three exceptions the loader tells apart, or a table.\<close>

datatype read_result = NoSuchFile | NoColumns | ReadFailed | Parsed frame

datatype load_error = FileNotFound | EmptyData | MissingColumn string | UnexpectedLoadFailure

datatype notice = RowsDropped nat | NoDataLoaded | NoDataAfterFilter | FraudColumnUnavailable

definition required_columns :: "string list" where
  "required_columns = [''hour'', ''amt'', ''category'', ''weekday'']"

text \<open>
  \<open>load_data\<close>. Every \<open>st.error\<close> of the source is followed by \<open>st.stop()\<close>, which ends the
  run: the error is the result and no frame is returned. A warning does not stop the run
  and is returned beside the frame.
\<close>

definition load_data :: "(string \<Rightarrow> real option) \<Rightarrow> read_result \<Rightarrow> load_error + (frame \<times> notice list)" where
  "load_data p src =
     (case src of
        NoSuchFile \<Rightarrow> Inl FileNotFound
      | NoColumns \<Rightarrow> Inl EmptyData
      | ReadFailed \<Rightarrow> Inl UnexpectedLoadFailure
      | Parsed df \<Rightarrow>
          (case find (\<lambda>c. c \<notin> set (columns df)) required_columns of
             Some c \<Rightarrow> Inl (MissingColumn c)
           | None \<Rightarrow>
               (let df1 = set_col df ''amt'' (map (to_numeric p) (col df ''amt''))
                in case astype_Int64 (map (to_numeric p) (col df1 ''hour'')) of
                     Inl e \<Rightarrow> Inl UnexpectedLoadFailure
                   | Inr hs \<Rightarrow>
                       (let df2 = set_col df1 ''hour'' hs;
                            initial_rows = length (rows df2);
                            df3 = dropna df2 [''amt'', ''hour''];
                            msgs = (if length (rows df3) < initial_rows
                                    then [RowsDropped (initial_rows - length (rows df3))]
                                    else []);
                            df4 = (if ''is_fraud'' \<in> set (columns df3)
                                   then set_col df3 ''is_fraud''
                                          (map (\<lambda>c. Bool (truthy c)) (col df3 ''is_fraud''))
                                   else df3)
                        in Inr (df4, msgs)))))"

section \<open>Filter controls\<close>

fun num_of :: "cell \<Rightarrow> real option" where
  "num_of (Num x) = Some x"
| "num_of _ = None"

text \<open>\<open>Series.min()\<close> and \<open>Series.max()\<close> skip nulls; \<open>None\<close> when no number is left.\<close>

definition series_min :: "cell list \<Rightarrow> real option" where
  "series_min s = (case List.map_filter num_of s of [] \<Rightarrow> None | x # xs \<Rightarrow> Some (fold min xs x))"

definition series_max :: "cell list \<Rightarrow> real option" where
  "series_max s = (case List.map_filter num_of s of [] \<Rightarrow> None | x # xs \<Rightarrow> Some (fold max xs x))"

text \<open>Python's \<open>int(x)\<close> on a number: truncation towards zero.\<close>

definition py_int :: "real \<Rightarrow> int" where
  "py_int x = (if 0 \<le> x then \<lfloor>x\<rfloor> else \<lceil>x\<rceil>)"

definition min_hour :: "frame \<Rightarrow> real option" where
  "min_hour df = (if \<not> list_all isnull (col df ''hour'') then series_min (col df ''hour'') else Some 0)"

definition max_hour :: "frame \<Rightarrow> real option" where
  "max_hour df = (if \<not> list_all isnull (col df ''hour'') then series_max (col df ''hour'') else Some 23)"

text \<open>
  The arguments handed to the hour slider: its two bounds and its default value. There
  are none (\<open>None\<close>) when \<open>int\<close> is given the minimum of a column that holds no number.
\<close>

record hour_slider =
  min_value :: int
  max_value :: int
  default_value :: "int \<times> int"

definition time_range_slider :: "frame \<Rightarrow> hour_slider option" where
  "time_range_slider df =
     (case (min_hour df, max_hour df) of
        (Some lo, Some hi) \<Rightarrow>
          Some \<lparr>min_value = py_int lo, max_value = py_int hi, default_value = (py_int lo, py_int hi)\<rparr>
      | _ \<Rightarrow> None)"

text \<open>\<open>Series.unique()\<close>: the distinct values in order of first appearance.\<close>

fun unique :: "'a list \<Rightarrow> 'a list" where
  "unique [] = []"
| "unique (x # xs) = x # unique (filter (\<lambda>y. y \<noteq> x) xs)"

text \<open>
  Python's \<open><\<close> on two values: texts compare as strings, numbers and truth values as
  numbers, a comparison with NaN is false, and a text against anything else raises
  TypeError.
\<close>

fun as_float :: "cell \<Rightarrow> real option" where
  "as_float (Num x) = Some x"
| "as_float (Bool b) = Some (if b then 1 else 0)"
| "as_float _ = None"

fun cell_lt :: "cell \<Rightarrow> cell \<Rightarrow> py_error + bool" where
  "cell_lt (Text a) (Text b) = Inr (a < b)"
| "cell_lt (Text a) _ = Inl TypeError"
| "cell_lt _ (Text b) = Inl TypeError"
| "cell_lt x y = (case (as_float x, as_float y) of (Some u, Some v) \<Rightarrow> Inr (u < v) | _ \<Rightarrow> Inr False)"

text \<open>
  What a call of a library function comes to: it raises, it returns a value, or the
  value it returns is one the model does not determine.
\<close>

datatype 'a outcome = Raises py_error | Unspecified | Returns 'a

text \<open>
  \<open>sorted(xs)\<close> is a stable ascending sort that only asks \<open><\<close>. The insertion below puts
  each element before the first one that is not below it and fails at the first
  comparison that raises; it raises exactly when a text meets a value that is not a
  text, and on values that \<open><\<close> orders consistently it gives the one stable ascending
  arrangement, as every stable sort does.
\<close>

fun py_insert :: "cell \<Rightarrow> cell list \<Rightarrow> py_error + cell list" where
  "py_insert x [] = Inr [x]"
| "py_insert x (y # ys) =
     (case cell_lt y x of
        Inl e \<Rightarrow> Inl e
      | Inr False \<Rightarrow> Inr (x # y # ys)
      | Inr True \<Rightarrow> (case py_insert x ys of Inl e \<Rightarrow> Inl e | Inr zs \<Rightarrow> Inr (y # zs)))"

fun insertion_sort :: "cell list \<Rightarrow> py_error + cell list" where
  "insertion_sort [] = Inr []"
| "insertion_sort (x # xs) =
     (case insertion_sort xs of Inl e \<Rightarrow> Inl e | Inr ys \<Rightarrow> py_insert x ys)"

fun is_text :: "cell \<Rightarrow> bool" where
  "is_text (Text s) = True"
| "is_text _ = False"

text \<open>
  A NaN is neither below nor above any number, so with a NaN among other values that are
  not texts \<open><\<close> is not a consistent order and the arrangement \<open>sorted\<close> returns depends on
  how its algorithm finds runs: the model leaves that arrangement open.
\<close>

definition py_sorted :: "cell list \<Rightarrow> cell list outcome" where
  "py_sorted xs =
     (if NaN \<in> set xs \<and> 2 \<le> length xs \<and> \<not> list_ex is_text xs then Unspecified
      else case insertion_sort xs of Inl e \<Rightarrow> Raises e | Inr ys \<Rightarrow> Returns ys)"

definition unique_categories :: "frame \<Rightarrow> cell list outcome" where
  "unique_categories df = py_sorted (unique (col df ''category''))"

text \<open>The arguments handed to the category multiselect.\<close>

record multiselect =
  options :: "cell list"
  default_selection :: "cell list"

definition merchant_category_select :: "frame \<Rightarrow> multiselect outcome" where
  "merchant_category_select df =
     (case unique_categories df of
        Raises e \<Rightarrow> Raises e
      | Unspecified \<Rightarrow> Unspecified
      | Returns cs \<Rightarrow> Returns \<lparr>options = cs, default_selection = cs\<rparr>)"

section \<open>Filter engine\<close>

record selection =
  time_range :: "int \<times> int"
  amount_range :: "real \<times> real"
  merchant_category :: "cell list"

text \<open>
  Comparison of a numeric column with a bound gives a mask; a null compares as not
  selected. After \<open>load_data\<close> the columns \<open>hour\<close> and \<open>amt\<close> hold numbers only.
\<close>

definition series_ge :: "cell list \<Rightarrow> real \<Rightarrow> bool list" where
  "series_ge s x = map (\<lambda>c. case c of Num v \<Rightarrow> x \<le> v | _ \<Rightarrow> False) s"

definition series_le :: "cell list \<Rightarrow> real \<Rightarrow> bool list" where
  "series_le s x = map (\<lambda>c. case c of Num v \<Rightarrow> v \<le> x | _ \<Rightarrow> False) s"

definition isin :: "cell list \<Rightarrow> cell list \<Rightarrow> bool list" where
  "isin s vals = map (\<lambda>c. c \<in> set vals) s"

definition mask_and :: "bool list \<Rightarrow> bool list \<Rightarrow> bool list" where
  "mask_and a b = map (\<lambda>(x, y). x \<and> y) (zip a b)"

text \<open>\<open>df[mask]\<close>: the rows at the positions where the mask is true, columns kept.\<close>

definition boolean_index :: "frame \<Rightarrow> bool list \<Rightarrow> frame" where
  "boolean_index df m = df\<lparr>rows := map fst (filter snd (zip (rows df) m))\<rparr>"

definition filter_engine :: "frame \<Rightarrow> selection \<Rightarrow> frame" where
  "filter_engine df S =
     boolean_index df
       (mask_and
         (mask_and
           (mask_and
             (mask_and
               (series_ge (col df ''hour'') (of_int (fst (time_range S))))
               (series_le (col df ''hour'') (of_int (snd (time_range S)))))
             (series_ge (col df ''amt'') (fst (amount_range S))))
           (series_le (col df ''amt'') (snd (amount_range S))))
         (isin (col df ''category'') (merchant_category S)))"

text \<open>
  The three-part row predicate in the words of the specification: hour within the
  inclusive hour range, amount within the inclusive amount range, category selected.
\<close>

definition hour_within :: "selection \<Rightarrow> row \<Rightarrow> bool" where
  "hour_within S r =
     (case cell_of r ''hour'' of
        Num h \<Rightarrow> of_int (fst (time_range S)) \<le> h \<and> h \<le> of_int (snd (time_range S))
      | _ \<Rightarrow> False)"

definition amt_within :: "selection \<Rightarrow> row \<Rightarrow> bool" where
  "amt_within S r =
     (case cell_of r ''amt'' of
        Num a \<Rightarrow> fst (amount_range S) \<le> a \<and> a \<le> snd (amount_range S)
      | _ \<Rightarrow> False)"

definition category_selected :: "selection \<Rightarrow> row \<Rightarrow> bool" where
  "category_selected S r = (cell_of r ''category'' \<in> set (merchant_category S))"

definition row_selected :: "selection \<Rightarrow> row \<Rightarrow> bool" where
  "row_selected S r = (hour_within S r \<and> amt_within S r \<and> category_selected S r)"

section \<open>Filtering the loaded frame\<close>

text \<open>
  DataFrame objects live in a store and a variable names a position in it. Indexing
  with a mask makes a new object and so does \<open>.copy()\<close>; nothing writes to an object
  that is already there.
\<close>

type_synonym store = "frame list"

definition alloc :: "store \<Rightarrow> frame \<Rightarrow> store \<times> nat" where
  "alloc h v = (h @ [v], length h)"

text \<open>
  The step that binds \<open>df_filtered\<close>: the filter engine on a frame that is not empty,
  otherwise a fresh empty \<open>pd.DataFrame()\<close> and a warning.
\<close>

definition filter_data :: "store \<Rightarrow> nat \<Rightarrow> selection \<Rightarrow> store \<times> nat \<times> notice list" where
  "filter_data h df S =
     (if \<not> df_empty (h ! df)
      then (let (h1, view) = alloc h (filter_engine (h ! df) S);
                (h2, df_filtered) = alloc h1 (h1 ! view)
            in (h2, df_filtered, []))
      else (let (h1, df_filtered) = alloc h \<lparr>columns = [], rows = []\<rparr>
            in (h1, df_filtered, [NoDataLoaded])))"

section \<open>Visualizations\<close>

datatype chart = AmountHistogram | HourWeekdayHeatmap | FraudBoxPlot

datatype shown = Plot chart | Message notice

text \<open>What the page shows for a loaded frame and its filtered frame, in order.\<close>

definition visualizations :: "frame \<Rightarrow> frame \<Rightarrow> shown list" where
  "visualizations df df_filtered =
     (if \<not> df_empty df_filtered
      then [Plot AmountHistogram, Plot HourWeekdayHeatmap] @
           (if ''is_fraud'' \<in> set (columns df) \<and> \<not> list_all isnull (col df_filtered ''is_fraud'')
            then [Plot FraudBoxPlot]
            else [Message FraudColumnUnavailable])
      else [Message NoDataAfterFilter])"

section \<open>Notions used to state the properties\<close>

text \<open>A row has a null amount or a null hour once both are coerced to numbers.\<close>

definition null_after_coercion :: "(string \<Rightarrow> real option) \<Rightarrow> row \<Rightarrow> bool" where
  "null_after_coercion p r =
     (isnull (to_numeric p (cell_of r ''amt'')) \<or> isnull (to_numeric p (cell_of r ''hour'')))"

text \<open>A row with its amount and hour coerced, and with its fraud flag made a truth value.\<close>

definition coerce_row :: "(string \<Rightarrow> real option) \<Rightarrow> row \<Rightarrow> row" where
  "coerce_row p r =
     put_cell ''hour'' (to_numeric p (cell_of r ''hour''))
       (put_cell ''amt'' (to_numeric p (cell_of r ''amt'')) r)"

definition flag_row :: "row \<Rightarrow> row" where
  "flag_row r = put_cell ''is_fraud'' (Bool (truthy (cell_of r ''is_fraud''))) r"

text \<open>The whole-number hours of a frame, nulls left out.\<close>

definition hour_values :: "frame \<Rightarrow> int list" where
  "hour_values df = map py_int (List.map_filter num_of (col df ''hour''))"

text \<open>
  The order of category values of one kind: texts as strings, numbers by size. Values of
  different kinds, and missing values, are not ordered.
\<close>

fun cell_le :: "cell \<Rightarrow> cell \<Rightarrow> bool" where
  "cell_le (Text a) (Text b) = (a \<le> b)"
| "cell_le (Num a) (Num b) = (a \<le> b)"
| "cell_le _ _ = False"

fun is_number :: "cell \<Rightarrow> bool" where
  "is_number (Num x) = True"
| "is_number _ = False"

text \<open>What loading makes of a row it keeps, in a table \<open>t\<close>.\<close>

definition finish_row :: "(string \<Rightarrow> real option) \<Rightarrow> frame \<Rightarrow> row \<Rightarrow> row" where
  "finish_row p t r =
     (if ''is_fraud'' \<in> set (columns t) then flag_row (coerce_row p r) else coerce_row p r)"

section \<open>A sample table\<close>

text \<open>
  A table of four rows used for the concrete instances below, a reading of texts that
  knows the text \<open>7\<close> only, the dataset the table loads to, a selection, a table in
  which one category is missing, and a table whose categories are numbers.
\<close>

definition sample_parse :: "string \<Rightarrow> real option" where
  "sample_parse s = (if s = ''7'' then Some 7 else None)"

definition sample_table :: frame where
  "sample_table =
     \<lparr>columns = [''hour'', ''amt'', ''category'', ''weekday'', ''is_fraud''],
      rows =
       [[(''hour'', Num 3), (''amt'', Num 10), (''category'', Text ''grocery''),
         (''weekday'', Text ''Mon''), (''is_fraud'', Num 0)],
        [(''hour'', Text ''7''), (''amt'', Num 50), (''category'', Text ''gas''),
         (''weekday'', Text ''Tue''), (''is_fraud'', Num 1)],
        [(''hour'', Text ''late''), (''amt'', Num 100), (''category'', Text ''gas''),
         (''weekday'', Text ''Wed''), (''is_fraud'', Num 1)],
        [(''hour'', Num 22), (''amt'', Num 500), (''category'', Text ''travel''),
         (''weekday'', Text ''Thu''), (''is_fraud'', NaN)]]\<rparr>"

definition sample_loaded :: frame where
  "sample_loaded =
     \<lparr>columns = [''hour'', ''amt'', ''category'', ''weekday'', ''is_fraud''],
      rows =
       [[(''hour'', Num 3), (''amt'', Num 10), (''category'', Text ''grocery''),
         (''weekday'', Text ''Mon''), (''is_fraud'', Bool False)],
        [(''hour'', Num 7), (''amt'', Num 50), (''category'', Text ''gas''),
         (''weekday'', Text ''Tue''), (''is_fraud'', Bool True)],
        [(''hour'', Num 22), (''amt'', Num 500), (''category'', Text ''travel''),
         (''weekday'', Text ''Thu''), (''is_fraud'', Bool True)]]\<rparr>"

definition sample_missing_category :: frame where
  "sample_missing_category =
     \<lparr>columns = [''hour'', ''amt'', ''category'', ''weekday''],
      rows =
       [[(''hour'', Num 3), (''amt'', Num 10), (''category'', Text ''grocery''),
         (''weekday'', Text ''Mon'')],
        [(''hour'', Num 7), (''amt'', Num 50), (''category'', NaN),
         (''weekday'', Text ''Tue'')]]\<rparr>"

definition sample_numeric_category :: frame where
  "sample_numeric_category =
     \<lparr>columns = [''hour'', ''amt'', ''category'', ''weekday''],
      rows =
       [[(''hour'', Num 3), (''amt'', Num 10), (''category'', Num 30),
         (''weekday'', Text ''Mon'')],
        [(''hour'', Num 7), (''amt'', Num 50), (''category'', Num 4),
         (''weekday'', Text ''Tue'')],
        [(''hour'', Num 9), (''amt'', Num 70), (''category'', Num 30),
         (''weekday'', Text ''Wed'')]]\<rparr>"

definition sample_selection :: selection where
  "sample_selection =
     \<lparr>time_range = (3, 7), amount_range = (10, 500),
      merchant_category = [Text ''gas'', Text ''grocery'', Text ''travel'']\<rparr>"

section \<open>Rows and columns\<close>

lemma cell_of_put_same [simp]: "cell_of (put_cell c v r) c = v"
  by (induction r) (auto simp: cell_of_def)

lemma cell_of_put_other [simp]: "c' \<noteq> c \<Longrightarrow> cell_of (put_cell c v r) c' = cell_of r c'"
  by (induction r) (auto simp: cell_of_def)

lemma zip_map_same: "map (\<lambda>(r, v). g r v) (zip xs (map f xs)) = map (\<lambda>r. g r (f r)) xs"
  by (induction xs) auto

lemma rows_set_col_map:
  "rows (set_col df c (map f (col df c))) = map (\<lambda>r. put_cell c (f (cell_of r c)) r) (rows df)"
  by (simp add: set_col_def col_def zip_map_same map_map comp_def)

lemma columns_set_col: "c \<in> set (columns df) \<Longrightarrow> columns (set_col df c s) = columns df"
  by (simp add: set_col_def)

section \<open>The filter engine is a row filter\<close>

lemma mask_index: "map fst (filter snd (zip xs (map P xs))) = filter P xs"
  by (induction xs) auto

lemma mask_and_map: "mask_and (map f xs) (map g xs) = map (\<lambda>x. f x \<and> g x) xs"
  by (induction xs) (auto simp: mask_and_def)

lemma rows_filter_engine: "rows (filter_engine df S) = filter (row_selected S) (rows df)"
proof -
  have eq: "filter_engine df S = boolean_index df (map (row_selected S) (rows df))"
    unfolding filter_engine_def col_def series_ge_def series_le_def isin_def map_map comp_def
      mask_and_map
    by (rule arg_cong [where f = "boolean_index df"], rule map_cong)
       (auto simp: row_selected_def hour_within_def amt_within_def category_selected_def
          split: cell.splits)
  show ?thesis unfolding eq by (simp add: boolean_index_def mask_index)
qed

lemma columns_filter_engine: "columns (filter_engine df S) = columns df"
  by (simp add: filter_engine_def boolean_index_def)

lemma filter_engine_eq: "filter_engine df S = df\<lparr>rows := filter (row_selected S) (rows df)\<rparr>"
proof (rule frame.equality)
  show "frame.more (filter_engine df S) = frame.more (df\<lparr>rows := filter (row_selected S) (rows df)\<rparr>)"
    by (simp add: filter_engine_def boolean_index_def)
qed (simp_all add: rows_filter_engine columns_filter_engine)

text \<open>
  C1. For every dataset and every filter selection, the filter engine returns exactly the
  rows of the dataset whose hour lies in the inclusive hour range, whose amount lies in
  the inclusive amount range and whose category is selected: the output rows are the
  rows of the dataset that satisfy the three-part predicate, in the same order, so every
  output row satisfies it and no row satisfying it is left out.
\<close>

theorem filter_engine_exact:
  "rows (filter_engine D S) = filter (row_selected S) (rows D)
   \<and> set (rows (filter_engine D S)) = {r \<in> set (rows D). row_selected S r}
   \<and> columns (filter_engine D S) = columns D"
  by (simp add: rows_filter_engine columns_filter_engine)

text \<open>
  C2. Filtering twice with the same selection is filtering once.
\<close>

theorem filter_engine_idempotent:
  "filter_engine (filter_engine D S) S = filter_engine D S"
  by (simp add: filter_engine_eq)

section \<open>Loading\<close>

lemma find_required_None:
  "set required_columns \<subseteq> set (columns t) \<Longrightarrow>
   find (\<lambda>c. c \<notin> set (columns t)) required_columns = None"
  by (simp add: find_None_iff subset_iff)

text \<open>The loader in closed form, on a table that has the required columns.\<close>

lemma load_data_Parsed:
  assumes req: "set required_columns \<subseteq> set (columns t)"
  shows "load_data p (Parsed t) =
     (if list_all (\<lambda>r. fits_Int64 (to_numeric p (cell_of r ''hour''))) (rows t)
      then Inr (t\<lparr>rows := map (finish_row p t) (filter (\<lambda>r. \<not> null_after_coercion p r) (rows t))\<rparr>,
                if length (filter (\<lambda>r. \<not> null_after_coercion p r) (rows t)) < length (rows t)
                then [RowsDropped (length (rows t)
                        - length (filter (\<lambda>r. \<not> null_after_coercion p r) (rows t)))]
                else [])
      else Inl UnexpectedLoadFailure)"
proof -
  have amt: "''amt'' \<in> set (columns t)" and hour: "''hour'' \<in> set (columns t)"
    using req by (auto simp: required_columns_def)
  define df1 where "df1 = set_col t ''amt'' (map (to_numeric p) (col t ''amt''))"
  have r1: "rows df1 = map (\<lambda>r. put_cell ''amt'' (to_numeric p (cell_of r ''amt'')) r) (rows t)"
    by (simp add: df1_def rows_set_col_map)
  have c1: "columns df1 = columns t" by (simp add: df1_def columns_set_col amt)
  have h1: "map (to_numeric p) (col df1 ''hour'') = map (\<lambda>r. to_numeric p (cell_of r ''hour'')) (rows t)"
    by (simp add: col_def r1 comp_def)
  define df2 where "df2 = set_col df1 ''hour'' (map (to_numeric p) (col df1 ''hour''))"
  have r2: "rows df2 = map (coerce_row p) (rows t)"
    by (simp add: df2_def rows_set_col_map r1 comp_def coerce_row_def)
  have c2: "columns df2 = columns t" by (simp add: df2_def columns_set_col c1 hour)
  have keep: "(\<lambda>r. \<not> isnull (cell_of r ''amt'') \<and> \<not> isnull (cell_of r ''hour'')) \<circ> coerce_row p
      = (\<lambda>r. \<not> null_after_coercion p r)"
    by (rule ext) (simp add: coerce_row_def null_after_coercion_def)
  define df3 where "df3 = dropna df2 [''amt'', ''hour'']"
  have r3: "rows df3 = map (coerce_row p) (filter (\<lambda>r. \<not> null_after_coercion p r) (rows t))"
    by (simp add: df3_def dropna_def r2 filter_map keep)
  have c3: "columns df3 = columns t" by (simp add: df3_def dropna_def c2)
  define df4 where "df4 = (if ''is_fraud'' \<in> set (columns df3)
       then set_col df3 ''is_fraud'' (map (\<lambda>c. Bool (truthy c)) (col df3 ''is_fraud'')) else df3)"
  have r4: "rows df4 = map (finish_row p t) (filter (\<lambda>r. \<not> null_after_coercion p r) (rows t))"
    by (simp add: df4_def rows_set_col_map r3 c3 finish_row_def flag_row_def comp_def)
  have c4: "columns df4 = columns t" by (simp add: df4_def columns_set_col c3)
  have m4: "frame.more df4 = frame.more t"
    by (simp add: df4_def df3_def df2_def df1_def set_col_def dropna_def)
  have eq4: "df4 = t\<lparr>rows := map (finish_row p t) (filter (\<lambda>r. \<not> null_after_coercion p r) (rows t))\<rparr>"
    by (rule frame.equality) (simp_all add: r4 c4 m4)
  have ld: "load_data p (Parsed t) =
      (case astype_Int64 (map (to_numeric p) (col df1 ''hour'')) of
         Inl e \<Rightarrow> Inl UnexpectedLoadFailure
       | Inr hs \<Rightarrow> Inr (df4, if length (rows df3) < length (rows df2)
              then [RowsDropped (length (rows df2) - length (rows df3))] else []))"
    unfolding load_data_def
    by (simp add: find_required_None [OF req] Let_def astype_Int64_def
          df1_def [symmetric] df2_def [symmetric] df3_def [symmetric] df4_def)
  show ?thesis unfolding ld
    by (simp add: astype_Int64_def h1 list_all_iff eq4 r3 r2)
qed

section \<open>Missing columns\<close>

lemma load_data_first_missing:
  "find (\<lambda>c. c \<notin> set (columns t)) required_columns = Some c \<Longrightarrow>
   load_data p (Parsed t) = Inl (MissingColumn c)"
  by (simp add: load_data_def)

lemma load_data_some_missing:
  assumes "\<not> set required_columns \<subseteq> set (columns t)"
  shows "\<exists>c \<in> set required_columns. c \<notin> set (columns t) \<and> load_data p (Parsed t) = Inl (MissingColumn c)"
proof -
  from assms obtain c where "find (\<lambda>c. c \<notin> set (columns t)) required_columns = Some c"
    by (cases "find (\<lambda>c. c \<notin> set (columns t)) required_columns") (auto simp: find_None_iff)
  then show ?thesis
    by (auto simp: load_data_first_missing find_Some_iff)
qed

text \<open>
  C3, amended. For each of the columns hour, amt, category and weekday: loading a table
  in which that column is absent always fails with \<open>MissingColumn\<close> and returns no
  dataset. The column named is the first absent required column in the order hour, amt,
  category, weekday: it is that column whenever every required column checked before it
  is present, which for hour is always.
\<close>

theorem load_data_missing_column:
  assumes "c \<in> set required_columns"
    and "c \<notin> set (columns t)"
  shows "\<exists>m. load_data p (Parsed t) = Inl (MissingColumn m)
           \<and> find (\<lambda>x. x \<notin> set (columns t)) required_columns = Some m
           \<and> m \<in> set required_columns \<and> m \<notin> set (columns t)
           \<and> ((\<forall>c' \<in> set (takeWhile (\<lambda>x. x \<noteq> c) required_columns). c' \<in> set (columns t))
                \<longrightarrow> m = c)
           \<and> (c = ''hour'' \<longrightarrow> m = ''hour'')
           \<and> (\<forall>D msgs. load_data p (Parsed t) \<noteq> Inr (D, msgs))"
proof -
  from assms have "\<not> set required_columns \<subseteq> set (columns t)" by blast
  then obtain m where m: "find (\<lambda>x. x \<notin> set (columns t)) required_columns = Some m"
    by (cases "find (\<lambda>x. x \<notin> set (columns t)) required_columns") (auto simp: find_None_iff)
  then have l: "load_data p (Parsed t) = Inl (MissingColumn m)"
    by (rule load_data_first_missing)
  from m have r: "m \<in> set required_columns" and a: "m \<notin> set (columns t)"
    by (auto simp: find_Some_iff)
  have f: "(\<forall>c' \<in> set (takeWhile (\<lambda>x. x \<noteq> c) required_columns). c' \<in> set (columns t)) \<longrightarrow> m = c"
    using m assms by (auto simp: required_columns_def split: if_splits)
  have h: "c = ''hour'' \<longrightarrow> m = ''hour''"
    using m assms by (auto simp: required_columns_def split: if_splits)
  from l m r a f h show ?thesis by simp
qed

text \<open>C3, amended, at a table without the column amt.\<close>

theorem load_data_missing_column_witness:
  "''amt'' \<in> set required_columns
   \<and> ''amt'' \<notin> set [''hour'', ''category'', ''weekday'', ''is_fraud'']
   \<and> load_data (\<lambda>s. None)
       (Parsed \<lparr>columns = [''hour'', ''category'', ''weekday'', ''is_fraud''],
                rows = [[(''hour'', Num 3), (''category'', Text ''gas''),
                         (''weekday'', Text ''Mon''), (''is_fraud'', Num 0)]]\<rparr>)
     = Inl (MissingColumn ''amt'')"
  using load_data_missing_column [of "''amt''"
     "\<lparr>columns = [''hour'', ''category'', ''weekday'', ''is_fraud''],
              rows = [[(''hour'', Num 3), (''category'', Text ''gas''),
                       (''weekday'', Text ''Mon''), (''is_fraud'', Num 0)]]\<rparr>" "\<lambda>s. None"]
  by (auto simp: required_columns_def)

text \<open>
  C3 as stated fails: in a table with the columns hour and category only, the column
  weekday is absent, yet the loader stops at amt and names amt, not weekday.
\<close>

theorem load_data_two_missing_counterexample:
  "''weekday'' \<in> set required_columns
   \<and> ''weekday'' \<notin> set [''hour'', ''category'']
   \<and> load_data (\<lambda>s. None)
       (Parsed \<lparr>columns = [''hour'', ''category''],
                rows = [[(''hour'', Num 3), (''category'', Text ''gas'')]]\<rparr>)
     = Inl (MissingColumn ''amt'')
   \<and> load_data (\<lambda>s. None)
       (Parsed \<lparr>columns = [''hour'', ''category''],
                rows = [[(''hour'', Num 3), (''category'', Text ''gas'')]]\<rparr>)
     \<noteq> Inl (MissingColumn ''weekday'')"
  by (simp add: load_data_def required_columns_def)

text \<open>
  C4, amended. For every table that has the four required columns and in which every
  hour that coerces to a number is a whole number within the range of a 64-bit signed
  integer, loading succeeds; it keeps exactly the rows whose amount and hour are both
  non-null after coercion, in order; the number of rows left is the number of rows minus
  the number dropped; and the messages are one warning carrying the exact number dropped
  when that number is positive, none otherwise.
\<close>

theorem load_data_drops_null_rows:
  assumes "set required_columns \<subseteq> set (columns t)"
    and "list_all (\<lambda>r. fits_Int64 (to_numeric p (cell_of r ''hour''))) (rows t)"
  shows "\<exists>D msgs. load_data p (Parsed t) = Inr (D, msgs)
     \<and> rows D = map (finish_row p t) (filter (\<lambda>r. \<not> null_after_coercion p r) (rows t))
     \<and> length (filter (null_after_coercion p) (rows t)) \<le> length (rows t)
     \<and> length (rows D) = length (rows t) - length (filter (null_after_coercion p) (rows t))
     \<and> msgs = (if 0 < length (filter (null_after_coercion p) (rows t))
               then [RowsDropped (length (filter (null_after_coercion p) (rows t)))]
               else [])"
proof -
  let ?kept = "filter (\<lambda>r. \<not> null_after_coercion p r) (rows t)"
  let ?dropped = "filter (null_after_coercion p) (rows t)"
  have sum: "length ?kept + length ?dropped = length (rows t)"
    using sum_length_filter_compl [of "null_after_coercion p" "rows t"] by simp
  then have k: "length ?kept = length (rows t) - length ?dropped" by simp
  have lt: "length ?kept < length (rows t) \<longleftrightarrow> 0 < length ?dropped" using sum by linarith
  show ?thesis
    unfolding load_data_Parsed [OF assms(1)] using assms(2) sum k lt
    by simp
qed

section \<open>The sample table\<close>

lemma sample_required: "set required_columns \<subseteq> set (columns sample_table)"
  by (simp add: required_columns_def sample_table_def)

lemma sample_whole:
  "list_all (\<lambda>r. fits_Int64 (to_numeric sample_parse (cell_of r ''hour''))) (rows sample_table)"
  by (simp add: sample_table_def sample_parse_def cell_of_def)

lemma sample_kept:
  "filter (\<lambda>r. \<not> null_after_coercion sample_parse r) (rows sample_table)
   = [rows sample_table ! 0, rows sample_table ! 1, rows sample_table ! 3]"
  by (simp add: sample_table_def sample_parse_def cell_of_def null_after_coercion_def)

lemma sample_load:
  "load_data sample_parse (Parsed sample_table) = Inr (sample_loaded, [RowsDropped 1])"
  unfolding load_data_Parsed [OF sample_required] sample_kept
  using sample_whole
  by (simp add: sample_table_def sample_loaded_def sample_parse_def finish_row_def flag_row_def
        coerce_row_def cell_of_def)

text \<open>C4, amended, at the sample table: four rows, one dropped.\<close>

theorem load_data_drops_null_rows_witness:
  "set required_columns \<subseteq> set (columns sample_table)
   \<and> list_all (\<lambda>r. fits_Int64 (to_numeric sample_parse (cell_of r ''hour''))) (rows sample_table)
   \<and> (\<exists>D msgs. load_data sample_parse (Parsed sample_table) = Inr (D, msgs)
        \<and> length (rows D) = 3 \<and> msgs = [RowsDropped 1])"
proof -
  have d: "filter (null_after_coercion sample_parse) (rows sample_table) = [rows sample_table ! 2]"
    by (simp add: sample_table_def sample_parse_def cell_of_def null_after_coercion_def)
  have n: "length (rows sample_table) = 4" by (simp add: sample_table_def)
  show ?thesis
    using load_data_drops_null_rows [OF sample_required sample_whole] sample_required sample_whole
    unfolding d n by auto
qed

text \<open>
  C4 as stated fails: a table with the required columns and the hour 3.5. No value is
  null after coercion, yet the cast to the nullable integer type raises and loading ends
  with \<open>UnexpectedLoadFailure\<close> instead of a dataset.
\<close>

theorem load_data_fractional_hour_counterexample:
  "set required_columns \<subseteq> set [''hour'', ''amt'', ''category'', ''weekday'']
   \<and> \<not> null_after_coercion (\<lambda>s. None)
        [(''hour'', Num (7 / 2)), (''amt'', Num 10), (''category'', Text ''gas''), (''weekday'', Text ''Mon'')]
   \<and> load_data (\<lambda>s. None)
       (Parsed \<lparr>columns = [''hour'', ''amt'', ''category'', ''weekday''],
                rows = [[(''hour'', Num (7 / 2)), (''amt'', Num 10),
                         (''category'', Text ''gas''), (''weekday'', Text ''Mon'')]]\<rparr>)
     = Inl UnexpectedLoadFailure"
proof -
  have req: "set required_columns \<subseteq> set (columns \<lparr>columns = [''hour'', ''amt'', ''category'', ''weekday''],
                rows = [[(''hour'', Num (7 / 2)), (''amt'', Num 10),
                         (''category'', Text ''gas''), (''weekday'', Text ''Mon'')]]\<rparr>)"
    by (simp add: required_columns_def)
  show ?thesis unfolding load_data_Parsed [OF req]
    by (simp add: required_columns_def null_after_coercion_def cell_of_def)
qed

text \<open>
  A whole hour that no 64-bit signed integer holds stops the loader in the same way.
\<close>

lemma load_data_hour_out_of_range:
  "load_data (\<lambda>s. None)
       (Parsed \<lparr>columns = [''hour'', ''amt'', ''category'', ''weekday''],
                rows = [[(''hour'', Num (2 ^ 63)), (''amt'', Num 10),
                         (''category'', Text ''gas''), (''weekday'', Text ''Mon'')]]\<rparr>)
     = Inl UnexpectedLoadFailure"
proof -
  have req: "set required_columns \<subseteq> set (columns \<lparr>columns = [''hour'', ''amt'', ''category'', ''weekday''],
                rows = [[(''hour'', Num (2 ^ 63)), (''amt'', Num 10),
                         (''category'', Text ''gas''), (''weekday'', Text ''Mon'')]]\<rparr>)"
    by (simp add: required_columns_def)
  show ?thesis unfolding load_data_Parsed [OF req]
    by (simp add: cell_of_def)
qed

section \<open>What a loaded frame holds\<close>

lemma load_data_Inr:
  assumes "load_data p src = Inr (D, msgs)"
  obtains t where "src = Parsed t" and "set required_columns \<subseteq> set (columns t)"
    and "list_all (\<lambda>r. fits_Int64 (to_numeric p (cell_of r ''hour''))) (rows t)"
    and "D = t\<lparr>rows := map (finish_row p t) (filter (\<lambda>r. \<not> null_after_coercion p r) (rows t))\<rparr>"
proof (cases src)
  case (Parsed t)
  show ?thesis
  proof (cases "set required_columns \<subseteq> set (columns t)")
    case True
    from assms show ?thesis
      unfolding Parsed load_data_Parsed [OF True]
      by (auto split: if_splits intro: that [OF Parsed True])
  next
    case False
    from load_data_some_missing [OF False, of p] assms show ?thesis
      by (auto simp: Parsed)
  qed
qed (use assms in \<open>simp_all add: load_data_def\<close>)

lemma to_numeric_cases: "to_numeric p c = NaN \<or> (\<exists>x. to_numeric p c = Num x)"
  by (cases c) (auto split: option.splits)

lemma finish_row_hour [simp]: "cell_of (finish_row p t r) ''hour'' = to_numeric p (cell_of r ''hour'')"
  by (simp add: finish_row_def flag_row_def coerce_row_def)

lemma finish_row_amt [simp]: "cell_of (finish_row p t r) ''amt'' = to_numeric p (cell_of r ''amt'')"
  by (simp add: finish_row_def flag_row_def coerce_row_def)

lemma finish_row_category [simp]: "cell_of (finish_row p t r) ''category'' = cell_of r ''category''"
  by (simp add: finish_row_def flag_row_def coerce_row_def)

lemma finish_row_is_fraud [simp]:
  "cell_of (finish_row p t r) ''is_fraud'' =
     (if ''is_fraud'' \<in> set (columns t) then Bool (truthy (cell_of r ''is_fraud''))
      else cell_of r ''is_fraud'')"
  by (simp add: finish_row_def flag_row_def coerce_row_def)

lemma whole_number: "fits_Int64 (to_numeric p c) \<Longrightarrow> \<not> isnull (to_numeric p c) \<Longrightarrow> \<exists>k::int. to_numeric p c = Num (of_int k)"
proof -
  assume w: "fits_Int64 (to_numeric p c)" and n: "\<not> isnull (to_numeric p c)"
  from n to_numeric_cases [of p c] obtain x where x: "to_numeric p c = Num x" by auto
  with w obtain k :: int where "x = real_of_int k" by auto
  with x have "to_numeric p c = Num (of_int k)" by simp
  then show ?thesis ..
qed

lemma loaded_hour:
  assumes "load_data p src = Inr (D, msgs)" and "r \<in> set (rows D)"
  shows "\<exists>k::int. cell_of r ''hour'' = Num (of_int k)"
proof -
  from assms(1) obtain t where
    w: "list_all (\<lambda>r. fits_Int64 (to_numeric p (cell_of r ''hour''))) (rows t)"
    and D: "D = t\<lparr>rows := map (finish_row p t) (filter (\<lambda>r. \<not> null_after_coercion p r) (rows t))\<rparr>"
    by (rule load_data_Inr)
  from assms(2) D obtain r0 where r0: "r0 \<in> set (rows t)" "\<not> null_after_coercion p r0" "r = finish_row p t r0"
    by auto
  from w r0(1) have "fits_Int64 (to_numeric p (cell_of r0 ''hour''))" by (simp add: list_all_iff)
  moreover from r0(2) have "\<not> isnull (to_numeric p (cell_of r0 ''hour''))"
    by (simp add: null_after_coercion_def)
  ultimately show ?thesis using whole_number r0(3) by simp
qed

lemma loaded_amt:
  assumes "load_data p src = Inr (D, msgs)" and "r \<in> set (rows D)"
  shows "\<exists>a. cell_of r ''amt'' = Num a"
proof -
  from assms(1) obtain t where
    D: "D = t\<lparr>rows := map (finish_row p t) (filter (\<lambda>r. \<not> null_after_coercion p r) (rows t))\<rparr>"
    by (rule load_data_Inr)
  from assms(2) D obtain r0 where r0: "\<not> null_after_coercion p r0" "r = finish_row p t r0"
    by auto
  from r0(1) have "\<not> isnull (to_numeric p (cell_of r0 ''amt''))"
    by (simp add: null_after_coercion_def)
  then show ?thesis using to_numeric_cases [of p "cell_of r0 ''amt''"] r0(2) by auto
qed

section \<open>The hour slider\<close>

lemma py_int_of_int [simp]: "py_int (of_int k) = k"
  by (simp add: py_int_def)

lemma whole_series:
  "(\<forall>c \<in> set cs. \<exists>k::int. c = Num (of_int k)) \<Longrightarrow>
   cs = map (\<lambda>h. Num (of_int h)) (map py_int (List.map_filter num_of cs))"
  by (induction cs) (auto simp: List.map_filter_simps)

lemma map_filter_nums: "List.map_filter num_of (map (\<lambda>h. Num (real_of_int h)) hs) = map of_int hs"
  by (induction hs) (auto simp: List.map_filter_simps)

lemma fold_min_of_int: "fold min (map real_of_int hs) (of_int h) = of_int (fold min hs h)"
  by (induction hs arbitrary: h) (auto simp: of_int_min [symmetric] simp del: of_int_min)

lemma fold_max_of_int: "fold max (map real_of_int hs) (of_int h) = of_int (fold max hs h)"
  by (induction hs arbitrary: h) (auto simp: of_int_max [symmetric] simp del: of_int_max)

lemma series_min_whole:
  "series_min (map (\<lambda>h. Num (real_of_int h)) hs) = (if hs = [] then None else Some (of_int (Min (set hs))))"
proof (cases hs)
  case Nil
  then show ?thesis by (simp add: series_min_def List.map_filter_simps)
next
  case (Cons a list)
  then show ?thesis
    using Min.set_eq_fold [of a list]
    by (simp add: series_min_def map_filter_nums fold_min_of_int)
qed

lemma series_max_whole:
  "series_max (map (\<lambda>h. Num (real_of_int h)) hs) = (if hs = [] then None else Some (of_int (Max (set hs))))"
proof (cases hs)
  case Nil
  then show ?thesis by (simp add: series_max_def List.map_filter_simps)
next
  case (Cons a list)
  then show ?thesis
    using Max.set_eq_fold [of a list]
    by (simp add: series_max_def map_filter_nums fold_max_of_int)
qed

lemma all_null_whole: "list_all isnull (map (\<lambda>h. Num (real_of_int h)) hs) \<longleftrightarrow> hs = []"
  by (cases hs) simp_all

text \<open>
  C5. For every loaded dataset the hour column holds whole numbers and no null; the
  bounds and the default value of the hour slider are the least and the greatest of
  them, and are 0 and 23 when all hours are null, which is when the dataset has no rows.
\<close>

theorem time_range_slider_bounds:
  assumes "load_data p src = Inr (D, msgs)"
  shows "col D ''hour'' = map (\<lambda>h. Num (of_int h)) (hour_values D)
     \<and> (list_all isnull (col D ''hour'') \<longleftrightarrow> rows D = [])
     \<and> time_range_slider D =
         Some (if rows D = []
               then \<lparr>min_value = 0, max_value = 23, default_value = (0, 23)\<rparr>
               else \<lparr>min_value = Min (set (hour_values D)), max_value = Max (set (hour_values D)),
                     default_value = (Min (set (hour_values D)), Max (set (hour_values D)))\<rparr>)"
proof -
  have "\<forall>c \<in> set (col D ''hour''). \<exists>k::int. c = Num (of_int k)"
    using loaded_hour [OF assms] by (auto simp: col_def)
  then have hv: "col D ''hour'' = map (\<lambda>h. Num (of_int h)) (hour_values D)"
    unfolding hour_values_def by (rule whole_series)
  have len: "length (hour_values D) = length (rows D)"
    using arg_cong [OF hv, of length] by (simp add: col_def)
  then have e: "hour_values D = [] \<longleftrightarrow> rows D = []" by (metis length_0_conv)
  have n: "list_all isnull (col D ''hour'') \<longleftrightarrow> rows D = []"
    unfolding hv all_null_whole by (rule e)
  have "time_range_slider D =
         Some (if rows D = []
               then \<lparr>min_value = 0, max_value = 23, default_value = (0, 23)\<rparr>
               else \<lparr>min_value = Min (set (hour_values D)), max_value = Max (set (hour_values D)),
                     default_value = (Min (set (hour_values D)), Max (set (hour_values D)))\<rparr>)"
  proof (cases "rows D = []")
    case True
    then show ?thesis
      by (simp add: time_range_slider_def min_hour_def max_hour_def col_def py_int_def)
  next
    case False
    with e have ne: "hour_values D \<noteq> []" by simp
    have m1: "min_hour D = Some (of_int (Min (set (hour_values D))))"
      unfolding min_hour_def using n False ne
      by (simp add: series_min_whole [of "hour_values D", folded hv])
    have m2: "max_hour D = Some (of_int (Max (set (hour_values D))))"
      unfolding max_hour_def using n False ne
      by (simp add: series_max_whole [of "hour_values D", folded hv])
    show ?thesis using False by (simp add: time_range_slider_def m1 m2)
  qed
  with hv n show ?thesis by blast
qed

text \<open>C5 at the sample table: hours 3, 7 and 22 give the bounds 3 and 22.\<close>

theorem time_range_slider_bounds_witness:
  "load_data sample_parse (Parsed sample_table) = Inr (sample_loaded, [RowsDropped 1])
   \<and> hour_values sample_loaded = [3, 7, 22]
   \<and> time_range_slider sample_loaded = Some \<lparr>min_value = 3, max_value = 22, default_value = (3, 22)\<rparr>"
proof -
  have hv: "hour_values sample_loaded = [3, 7, 22]"
    by (simp add: hour_values_def sample_loaded_def col_def cell_of_def List.map_filter_simps py_int_def)
  have r: "rows sample_loaded \<noteq> []" by (simp add: sample_loaded_def)
  show ?thesis
    using time_range_slider_bounds [OF sample_load] sample_load r
    unfolding hv by simp
qed

section \<open>The category options\<close>

lemma set_unique [simp]: "set (unique xs) = set xs"
  by (induction xs rule: unique.induct) auto

lemma distinct_unique [simp]: "distinct (unique xs)"
  by (induction xs rule: unique.induct) auto

lemma unique_map_inj: "inj f \<Longrightarrow> unique (map f xs) = map f (unique xs)"
  by (induction xs rule: unique.induct) (auto simp: filter_map comp_def inj_eq)

lemma py_insert_text:
  "py_insert (Text x) (map Text ys) = Inr (map Text (insort x ys))"
  by (induction ys) (auto split: bool.splits)

lemma insertion_sort_text: "insertion_sort (map Text xs) = Inr (map Text (sort xs))"
  by (induction xs) (simp_all add: py_insert_text)

lemma py_insert_number:
  "py_insert (Num x) (map Num ys) = Inr (map Num (insort x ys))"
  by (induction ys) (auto split: bool.splits)

lemma insertion_sort_number: "insertion_sort (map Num xs) = Inr (map Num (sort xs))"
  by (induction xs) (simp_all add: py_insert_number)

lemma py_sorted_text: "py_sorted (map Text xs) = Returns (map Text (sort xs))"
  by (auto simp: py_sorted_def insertion_sort_text)

lemma py_sorted_number: "py_sorted (map Num xs) = Returns (map Num (sort xs))"
  by (auto simp: py_sorted_def insertion_sort_number)

lemma all_text: "list_all is_text xs \<Longrightarrow> \<exists>cs. xs = map Text cs"
proof (induction xs)
  case Nil
  then show ?case by simp
next
  case (Cons x xs)
  then obtain cs where "xs = map Text cs" by auto
  moreover from Cons.prems obtain c where "x = Text c" by (cases x) auto
  ultimately have "x # xs = map Text (c # cs)" by simp
  then show ?case ..
qed

lemma all_number: "list_all is_number xs \<Longrightarrow> \<exists>ns. xs = map Num ns"
proof (induction xs)
  case Nil
  then show ?case by simp
next
  case (Cons x xs)
  then obtain ns where "xs = map Num ns" by auto
  moreover from Cons.prems obtain n where "x = Num n" by (cases x) auto
  ultimately have "x # xs = map Num (n # ns)" by simp
  then show ?case ..
qed

lemma sorted_wrt_text: "sorted_wrt cell_le (map Text xs) = sorted xs"
  by (simp add: sorted_wrt_map)

lemma sorted_wrt_number: "sorted_wrt cell_le (map Num xs) = sorted xs"
  by (simp add: sorted_wrt_map)

text \<open>
  C6, amended. For every dataset whose category values are all texts, or all numbers,
  the options of the category control are the distinct category values present in the
  dataset in ascending order, and the default selection is all of them.
\<close>

theorem category_options_sorted_distinct:
  assumes "list_all is_text (col D ''category'') \<or> list_all is_number (col D ''category'')"
  shows "\<exists>ys. unique_categories D = Returns ys
           \<and> merchant_category_select D = Returns \<lparr>options = ys, default_selection = ys\<rparr>
           \<and> set ys = set (col D ''category'') \<and> distinct ys \<and> sorted_wrt cell_le ys"
proof -
  have "\<exists>ys. unique_categories D = Returns ys
           \<and> set ys = set (col D ''category'') \<and> distinct ys \<and> sorted_wrt cell_le ys"
    using assms
  proof
    assume "list_all is_text (col D ''category'')"
    then obtain cs where cs: "col D ''category'' = map Text cs" using all_text by blast
    have "inj Text" by (simp add: inj_def)
    then have u: "unique (map Text cs) = map Text (unique cs)" by (rule unique_map_inj)
    have "unique_categories D = Returns (map Text (sort (unique cs)))"
      by (simp add: unique_categories_def cs u py_sorted_text)
    moreover have "set (map Text (sort (unique cs))) = set (col D ''category'')"
      by (simp add: cs)
    moreover have "distinct (map Text (sort (unique cs)))"
      by (simp add: distinct_map inj_on_def)
    moreover have "sorted_wrt cell_le (map Text (sort (unique cs)))"
      by (simp add: sorted_wrt_text)
    ultimately show ?thesis by blast
  next
    assume "list_all is_number (col D ''category'')"
    then obtain ns where ns: "col D ''category'' = map Num ns" using all_number by blast
    have "inj Num" by (simp add: inj_def)
    then have u: "unique (map Num ns) = map Num (unique ns)" by (rule unique_map_inj)
    have "unique_categories D = Returns (map Num (sort (unique ns)))"
      by (simp add: unique_categories_def ns u py_sorted_number)
    moreover have "set (map Num (sort (unique ns))) = set (col D ''category'')"
      by (simp add: ns)
    moreover have "distinct (map Num (sort (unique ns)))"
      by (simp add: distinct_map inj_on_def)
    moreover have "sorted_wrt cell_le (map Num (sort (unique ns)))"
      by (simp add: sorted_wrt_number)
    ultimately show ?thesis by blast
  qed
  then obtain ys where "unique_categories D = Returns ys"
    and "set ys = set (col D ''category'')" and "distinct ys" and "sorted_wrt cell_le ys"
    by blast
  moreover from this(1) have "merchant_category_select D = Returns \<lparr>options = ys, default_selection = ys\<rparr>"
    by (simp add: merchant_category_select_def)
  ultimately show ?thesis by blast
qed

text \<open>
  C6, amended, at the sample table, whose categories are texts, and at a table whose
  categories are the numbers 30, 4 and 30.
\<close>

theorem category_options_sorted_distinct_witness:
  "list_all is_text (col sample_loaded ''category'')
   \<and> merchant_category_select sample_loaded =
       Returns \<lparr>options = [Text ''gas'', Text ''grocery'', Text ''travel''],
                default_selection = [Text ''gas'', Text ''grocery'', Text ''travel'']\<rparr>
   \<and> list_all is_number (col sample_numeric_category ''category'')
   \<and> merchant_category_select sample_numeric_category =
       Returns \<lparr>options = [Num 4, Num 30], default_selection = [Num 4, Num 30]\<rparr>"
proof -
  have t: "list_all is_text (col sample_loaded ''category'')"
    by (simp add: sample_loaded_def col_def cell_of_def)
  have n: "list_all is_number (col sample_numeric_category ''category'')"
    by (simp add: sample_numeric_category_def col_def cell_of_def)
  have a: "unique_categories sample_loaded = Returns [Text ''gas'', Text ''grocery'', Text ''travel'']"
    by (simp add: unique_categories_def py_sorted_def sample_loaded_def col_def cell_of_def
          less_char_def)
  have b: "unique_categories sample_numeric_category = Returns [Num 4, Num 30]"
    by (simp add: unique_categories_def py_sorted_def sample_numeric_category_def col_def
          cell_of_def)
  from category_options_sorted_distinct [of sample_loaded] t a
  have "merchant_category_select sample_loaded =
       Returns \<lparr>options = [Text ''gas'', Text ''grocery'', Text ''travel''],
                default_selection = [Text ''gas'', Text ''grocery'', Text ''travel'']\<rparr>"
    by auto
  moreover from category_options_sorted_distinct [of sample_numeric_category] n b
  have "merchant_category_select sample_numeric_category =
       Returns \<lparr>options = [Num 4, Num 30], default_selection = [Num 4, Num 30]\<rparr>"
    by auto
  ultimately show ?thesis using t n by simp
qed

text \<open>
  C6 as stated fails: a table with one row whose category is missing loads unchanged,
  and sorting its distinct categories compares a float with a text and raises
  TypeError, so no options are presented.
\<close>

theorem unique_categories_missing_category:
  "load_data sample_parse (Parsed sample_missing_category) = Inr (sample_missing_category, [])
   \<and> unique_categories sample_missing_category = Raises TypeError
   \<and> merchant_category_select sample_missing_category = Raises TypeError"
proof -
  have req: "set required_columns \<subseteq> set (columns sample_missing_category)"
    by (simp add: required_columns_def sample_missing_category_def)
  have "load_data sample_parse (Parsed sample_missing_category) = Inr (sample_missing_category, [])"
    unfolding load_data_Parsed [OF req]
    by (simp add: sample_missing_category_def finish_row_def coerce_row_def cell_of_def
          null_after_coercion_def)
  moreover have "unique_categories sample_missing_category = Raises TypeError"
    by (simp add: unique_categories_def py_sorted_def sample_missing_category_def col_def
          cell_of_def)
  ultimately show ?thesis by (simp add: merchant_category_select_def)
qed

lemma sample_filtered:
  "filter_engine sample_loaded sample_selection =
     \<lparr>columns = [''hour'', ''amt'', ''category'', ''weekday'', ''is_fraud''],
      rows =
       [[(''hour'', Num 3), (''amt'', Num 10), (''category'', Text ''grocery''),
         (''weekday'', Text ''Mon''), (''is_fraud'', Bool False)],
        [(''hour'', Num 7), (''amt'', Num 50), (''category'', Text ''gas''),
         (''weekday'', Text ''Tue''), (''is_fraud'', Bool True)]]\<rparr>"
  by (simp add: filter_engine_eq sample_loaded_def sample_selection_def row_selected_def
        hour_within_def amt_within_def category_selected_def cell_of_def)

section \<open>The fraud chart\<close>

text \<open>
  C7. For every filtered dataset that is not empty, the fraud chart is shown if and only
  if the loaded dataset has an \<open>is_fraud\<close> column and some row of the filtered dataset has
  a non-null \<open>is_fraud\<close>; otherwise the notice is shown in its place and the two other
  charts are shown all the same. When the loaded dataset has no \<open>is_fraud\<close> column the
  fraud chart is shown for no filtered dataset at all.
\<close>

theorem visualizations_fraud_chart:
  assumes "\<not> df_empty F"
  shows "(Plot FraudBoxPlot \<in> set (visualizations D F) \<longleftrightarrow>
            ''is_fraud'' \<in> set (columns D) \<and> (\<exists>r \<in> set (rows F). \<not> isnull (cell_of r ''is_fraud'')))
     \<and> visualizations D F =
          [Plot AmountHistogram, Plot HourWeekdayHeatmap,
           if ''is_fraud'' \<in> set (columns D) \<and> (\<exists>r \<in> set (rows F). \<not> isnull (cell_of r ''is_fraud''))
           then Plot FraudBoxPlot else Message FraudColumnUnavailable]
     \<and> (''is_fraud'' \<notin> set (columns D) \<longrightarrow> (\<forall>F'. Plot FraudBoxPlot \<notin> set (visualizations D F')))"
  using assms by (auto simp: visualizations_def col_def list_all_iff)

text \<open>C7 at the sample table, and at a table without the column.\<close>

theorem visualizations_fraud_chart_witness:
  "\<not> df_empty (filter_engine sample_loaded sample_selection)
   \<and> visualizations sample_loaded (filter_engine sample_loaded sample_selection)
       = [Plot AmountHistogram, Plot HourWeekdayHeatmap, Plot FraudBoxPlot]
   \<and> \<not> df_empty (filter_engine sample_missing_category sample_selection)
   \<and> visualizations sample_missing_category (filter_engine sample_missing_category sample_selection)
       = [Plot AmountHistogram, Plot HourWeekdayHeatmap, Message FraudColumnUnavailable]"
proof -
  have ne: "\<not> df_empty (filter_engine sample_loaded sample_selection)"
    unfolding sample_filtered by (simp add: df_empty_def)
  have f: "filter_engine sample_missing_category sample_selection =
      \<lparr>columns = [''hour'', ''amt'', ''category'', ''weekday''],
       rows = [[(''hour'', Num 3), (''amt'', Num 10), (''category'', Text ''grocery''),
                (''weekday'', Text ''Mon'')]]\<rparr>"
    by (simp add: filter_engine_eq sample_missing_category_def sample_selection_def
          row_selected_def hour_within_def amt_within_def category_selected_def cell_of_def)
  have ne': "\<not> df_empty (filter_engine sample_missing_category sample_selection)"
    unfolding f by (simp add: df_empty_def)
  have a: "visualizations sample_loaded (filter_engine sample_loaded sample_selection)
       = [Plot AmountHistogram, Plot HourWeekdayHeatmap, Plot FraudBoxPlot]"
    using visualizations_fraud_chart [OF ne, of sample_loaded]
    unfolding sample_filtered by (simp add: sample_loaded_def cell_of_def)
  have b: "visualizations sample_missing_category (filter_engine sample_missing_category sample_selection)
       = [Plot AmountHistogram, Plot HourWeekdayHeatmap, Message FraudColumnUnavailable]"
    using visualizations_fraud_chart [OF ne', of sample_missing_category]
    by (simp add: sample_missing_category_def)
  from ne ne' a b show ?thesis by simp
qed

text \<open>
  C8. For every table with an \<open>is_fraud\<close> column that loads, the \<open>is_fraud\<close> column of the
  dataset is the truth value of the source value, row by row over the rows kept: true
  for a non-zero number, a non-empty text, a true flag and a missing value, false for
  zero and a false flag.
\<close>

theorem load_data_is_fraud_boolean:
  assumes "load_data p (Parsed t) = Inr (D, msgs)"
    and "''is_fraud'' \<in> set (columns t)"
  shows "col D ''is_fraud'' =
           map (\<lambda>r. Bool (truthy (cell_of r ''is_fraud'')))
             (filter (\<lambda>r. \<not> null_after_coercion p r) (rows t))
     \<and> (\<forall>c \<in> set (col D ''is_fraud''). c = Bool True \<or> c = Bool False)
     \<and> truthy (Num 0) = False \<and> truthy (Bool False) = False
     \<and> (\<forall>x. x \<noteq> 0 \<longrightarrow> truthy (Num x)) \<and> truthy (Bool True) \<and> truthy NaN
     \<and> (\<forall>s. s \<noteq> [] \<longrightarrow> truthy (Text s))"
proof -
  from assms(1) obtain t' where "Parsed t = Parsed t'"
    and D: "D = t'\<lparr>rows := map (finish_row p t') (filter (\<lambda>r. \<not> null_after_coercion p r) (rows t'))\<rparr>"
    by (rule load_data_Inr)
  then have "D = t\<lparr>rows := map (finish_row p t) (filter (\<lambda>r. \<not> null_after_coercion p r) (rows t))\<rparr>"
    by simp
  then have "col D ''is_fraud'' =
           map (\<lambda>r. Bool (truthy (cell_of r ''is_fraud'')))
             (filter (\<lambda>r. \<not> null_after_coercion p r) (rows t))"
    using assms(2) by (simp add: col_def comp_def)
  then show ?thesis by auto
qed

text \<open>C8 at the sample table.\<close>

theorem load_data_is_fraud_boolean_witness:
  "load_data sample_parse (Parsed sample_table) = Inr (sample_loaded, [RowsDropped 1])
   \<and> ''is_fraud'' \<in> set (columns sample_table)
   \<and> col sample_table ''is_fraud'' = [Num 0, Num 1, Num 1, NaN]
   \<and> col sample_loaded ''is_fraud'' = [Bool False, Bool True, Bool True]"
proof -
  have c: "''is_fraud'' \<in> set (columns sample_table)" by (simp add: sample_table_def)
  have s: "col sample_table ''is_fraud'' = [Num 0, Num 1, Num 1, NaN]"
    by (simp add: sample_table_def col_def cell_of_def)
  show ?thesis
    using load_data_is_fraud_boolean [OF sample_load c] sample_load c s
    unfolding sample_kept
    by (simp add: sample_table_def cell_of_def)
qed

text \<open>
  C9. When the source table has an \<open>is_fraud\<close> column, the loaded dataset has it and holds
  no null in it; a null source value of a row that is kept has become true; and for
  every selection whose filtered dataset is not empty, the condition that guards the
  fraud chart holds and the chart is shown.
\<close>

theorem loaded_is_fraud_never_null:
  assumes "load_data p (Parsed t) = Inr (D, msgs)"
    and "''is_fraud'' \<in> set (columns t)"
  shows "''is_fraud'' \<in> set (columns D)
     \<and> (\<forall>r \<in> set (rows D). \<not> isnull (cell_of r ''is_fraud''))
     \<and> (\<forall>r \<in> set (rows t). \<not> null_after_coercion p r \<longrightarrow> isnull (cell_of r ''is_fraud'') \<longrightarrow>
           cell_of (finish_row p t r) ''is_fraud'' = Bool True \<and> finish_row p t r \<in> set (rows D))
     \<and> (\<forall>S. \<not> df_empty (filter_engine D S) \<longrightarrow>
           \<not> list_all isnull (col (filter_engine D S) ''is_fraud'')
           \<and> Plot FraudBoxPlot \<in> set (visualizations D (filter_engine D S)))"
proof -
  from assms(1) obtain t' where "Parsed t = Parsed t'"
    and "D = t'\<lparr>rows := map (finish_row p t') (filter (\<lambda>r. \<not> null_after_coercion p r) (rows t'))\<rparr>"
    by (rule load_data_Inr)
  then have D: "D = t\<lparr>rows := map (finish_row p t) (filter (\<lambda>r. \<not> null_after_coercion p r) (rows t))\<rparr>"
    by simp
  have c: "''is_fraud'' \<in> set (columns D)" using assms(2) by (simp add: D)
  have n: "\<forall>r \<in> set (rows D). \<not> isnull (cell_of r ''is_fraud'')"
    using assms(2) by (auto simp: D)
  have s: "\<forall>r \<in> set (rows t). \<not> null_after_coercion p r \<longrightarrow> isnull (cell_of r ''is_fraud'') \<longrightarrow>
           cell_of (finish_row p t r) ''is_fraud'' = Bool True \<and> finish_row p t r \<in> set (rows D)"
  proof (intro ballI impI)
    fix r assume r: "r \<in> set (rows t)" "\<not> null_after_coercion p r" "isnull (cell_of r ''is_fraud'')"
    from r(3) have "cell_of r ''is_fraud'' = NaN" by (cases "cell_of r ''is_fraud''") simp_all
    with assms(2) r(1,2) show "cell_of (finish_row p t r) ''is_fraud'' = Bool True \<and> finish_row p t r \<in> set (rows D)"
      by (simp add: D)
  qed
  have g: "\<forall>S. \<not> df_empty (filter_engine D S) \<longrightarrow>
           \<not> list_all isnull (col (filter_engine D S) ''is_fraud'')
           \<and> Plot FraudBoxPlot \<in> set (visualizations D (filter_engine D S))"
  proof (intro allI impI)
    fix S assume ne: "\<not> df_empty (filter_engine D S)"
    then obtain r where r: "r \<in> set (rows (filter_engine D S))"
      by (cases "rows (filter_engine D S)") (auto simp: df_empty_def)
    then have "r \<in> set (rows D)" by (simp add: rows_filter_engine)
    with n have "\<not> isnull (cell_of r ''is_fraud'')" by blast
    with r have "\<not> list_all isnull (col (filter_engine D S) ''is_fraud'')"
      by (auto simp: col_def list_all_iff)
    with ne c show "\<not> list_all isnull (col (filter_engine D S) ''is_fraud'')
           \<and> Plot FraudBoxPlot \<in> set (visualizations D (filter_engine D S))"
      by (simp add: visualizations_def)
  qed
  from c n s g show ?thesis by blast
qed

text \<open>C9 at the sample table, whose last row has no fraud flag.\<close>

theorem loaded_is_fraud_never_null_witness:
  "load_data sample_parse (Parsed sample_table) = Inr (sample_loaded, [RowsDropped 1])
   \<and> ''is_fraud'' \<in> set (columns sample_table)
   \<and> cell_of (rows sample_table ! 3) ''is_fraud'' = NaN
   \<and> cell_of (rows sample_loaded ! 2) ''is_fraud'' = Bool True
   \<and> \<not> df_empty (filter_engine sample_loaded sample_selection)
   \<and> Plot FraudBoxPlot \<in> set (visualizations sample_loaded (filter_engine sample_loaded sample_selection))"
proof -
  have c: "''is_fraud'' \<in> set (columns sample_table)" by (simp add: sample_table_def)
  have ne: "\<not> df_empty (filter_engine sample_loaded sample_selection)"
    unfolding sample_filtered by (simp add: df_empty_def)
  have "Plot FraudBoxPlot \<in> set (visualizations sample_loaded (filter_engine sample_loaded sample_selection))"
    using loaded_is_fraud_never_null [OF sample_load c] ne by blast
  moreover have "cell_of (rows sample_table ! 3) ''is_fraud'' = NaN"
    by (simp add: sample_table_def cell_of_def)
  moreover have "cell_of (rows sample_loaded ! 2) ''is_fraud'' = Bool True"
    by (simp add: sample_loaded_def cell_of_def)
  ultimately show ?thesis using sample_load c ne by simp
qed

section \<open>Filtering leaves the loaded frame alone\<close>

text \<open>
  C10. For every store, loaded frame and selection, the rows of the filtered frame are a
  subsequence of the rows of the loaded frame, in the same order; the loaded frame and
  every other object of the store are as before; and the filtered frame is a new object,
  so that writing to it leaves the loaded frame as it is.
\<close>

theorem filter_data_subseq:
  assumes "df < length h"
    and "filter_data h df S = (h', df_filtered, msgs)"
  shows "subseq (rows (h' ! df_filtered)) (rows (h ! df))
     \<and> subseq (rows (filter_engine (h ! df) S)) (rows (h ! df))
     \<and> h' ! df = h ! df
     \<and> take (length h) h' = h
     \<and> length h \<le> df_filtered \<and> df_filtered < length h' \<and> df_filtered \<noteq> df
     \<and> (\<forall>v. (h'[df_filtered := v]) ! df = h ! df)
     \<and> (\<not> df_empty (h ! df) \<longrightarrow> h' ! df_filtered = filter_engine (h ! df) S)"
proof (cases "df_empty (h ! df)")
  case True
  with assms show ?thesis
    by (auto simp: filter_data_def alloc_def nth_append rows_filter_engine)
next
  case False
  with assms show ?thesis
    by (auto simp: filter_data_def alloc_def nth_append rows_filter_engine Let_def)
qed

text \<open>C10 at the sample table.\<close>

theorem filter_data_subseq_witness:
  "(0::nat) < length [sample_loaded]
   \<and> filter_data [sample_loaded] 0 sample_selection
       = ([sample_loaded, filter_engine sample_loaded sample_selection,
           filter_engine sample_loaded sample_selection], 2, [])
   \<and> subseq (rows (filter_engine sample_loaded sample_selection)) (rows sample_loaded)
   \<and> rows (filter_engine sample_loaded sample_selection) = [rows sample_loaded ! 0, rows sample_loaded ! 1]"
proof -
  have l: "(0::nat) < length [sample_loaded]" by simp
  have ne: "\<not> df_empty sample_loaded" by (simp add: df_empty_def sample_loaded_def)
  have f: "filter_data [sample_loaded] 0 sample_selection
       = ([sample_loaded, filter_engine sample_loaded sample_selection,
           filter_engine sample_loaded sample_selection], 2, [])"
    using ne by (simp add: filter_data_def alloc_def)
  have r: "rows (filter_engine sample_loaded sample_selection) = [rows sample_loaded ! 0, rows sample_loaded ! 1]"
    unfolding sample_filtered by (simp add: sample_loaded_def)
  show ?thesis
    using filter_data_subseq [OF l f] l f r by simp
qed

end
